theory Spec2Isabelle
  imports Main
begin

section \<open>Round-Robin scheduler of \<^verbatim>\<open>src/app.js\<close>: data model\<close>

text \<open>
  A process definition is an entry of \<^verbatim>\<open>initialProcesses\<close> (lines 31-36); the field
  \<^verbatim>\<open>id\<close> is called \<open>pid\<close> here because \<open>id\<close> is the identity function of HOL.
  A process of the run is the object built by \<^verbatim>\<open>deepReset\<close> (lines 376-383): the
  definition's fields, spread, followed by the five simulation fields.
  JavaScript numbers that hold integers are modelled as \<open>int\<close>; \<^verbatim>\<open>completionTime: null\<close>
  is \<open>None\<close>.
\<close>

record procdef =
  pid :: string
  burstTime :: int
  arrivalTime :: int
  color :: string

record process = procdef +
  remainingTime :: int
  waitingTime :: int
  completionTime :: "int option"
  arrived :: bool
  finished :: bool

text \<open>
  \<^verbatim>\<open>readyQueue\<close> and \<^verbatim>\<open>currentCPU.proc\<close> hold references to the objects of the array
  \<^verbatim>\<open>processes\<close>. The array is the store: a reference is the position of the object in
  \<^verbatim>\<open>processes\<close>, so that a write through the queue or through the CPU slot is a write
  to the one object all of them share.
\<close>

record cpu =
  proc :: nat
  qLeft :: int

text \<open>
  The globals of lines 38-44 that the scheduling reads or writes, and the text of the
  element \<^verbatim>\<open>quantumDisplayEl\<close> (the one place where \<^verbatim>\<open>deepReset\<close> uses the quantum).
  The interval timer (\<^verbatim>\<open>tickHandle\<close>, \<^verbatim>\<open>running\<close>), the event list, the tables and the
  3D scene (with \<^verbatim>\<open>finishedOrder\<close>, which only places the boxes of the finished
  processes) are never read by the scheduling steps of \<^verbatim>\<open>tick\<close>, by \<^verbatim>\<open>arrivalsStep\<close> or
  by \<^verbatim>\<open>allFinished\<close>, and are left out.
\<close>

record state =
  processes :: "process list"
  readyQueue :: "nat list"
  currentTime :: int
  currentCPU :: "cpu option"
  quantumDisplay :: int

section \<open>Operations\<close>

text \<open>
  \<^verbatim>\<open>getQuantum\<close> (lines 53-56). Its argument is the value of
  \<^verbatim>\<open>parseInt(quantumInput.value, 10)\<close>: \<open>Some q\<close> for a finite integer, \<open>None\<close> when
  the text does not start with a number (\<^verbatim>\<open>NaN\<close>) or is too long a number to be finite.
\<close>

definition getQuantum :: "int option \<Rightarrow> int" where
  "getQuantum quantumInput =
     (case quantumInput of
        None \<Rightarrow> 1
      | Some q \<Rightarrow> if q > 0 then q else 1)"

text \<open>\<^verbatim>\<open>initialProcesses\<close> (lines 31-36).\<close>

definition initialProcesses :: "procdef list" where
  "initialProcesses =
     [\<lparr>pid = ''P1'', burstTime = 8, arrivalTime = 0, color = ''#e91e63''\<rparr>,
      \<lparr>pid = ''P2'', burstTime = 5, arrivalTime = 2, color = ''#9c27b0''\<rparr>,
      \<lparr>pid = ''P3'', burstTime = 12, arrivalTime = 4, color = ''#3f51b5''\<rparr>,
      \<lparr>pid = ''P4'', burstTime = 6, arrivalTime = 6, color = ''#009688''\<rparr>]"

text \<open>The object that \<^verbatim>\<open>deepReset\<close> builds from one definition (lines 376-383).\<close>

definition freshProcess :: "procdef \<Rightarrow> process" where
  "freshProcess d =
     \<lparr>pid = pid d, burstTime = burstTime d, arrivalTime = arrivalTime d, color = color d,
      remainingTime = burstTime d,
      waitingTime = 0,
      completionTime = None,
      arrived = False,
      finished = False\<rparr>"

text \<open>
  \<^verbatim>\<open>deepReset\<close> (lines 369-397). The source reads the constant \<^verbatim>\<open>initialProcesses\<close>;
  the list of definitions is an argument here, so that statements about every process
  set can be made. Every field of the prior state is overwritten.
\<close>

definition deepReset :: "int option \<Rightarrow> procdef list \<Rightarrow> state \<Rightarrow> state" where
  "deepReset quantumInput defs s =
     s\<lparr>currentTime := 0,
       currentCPU := None,
       readyQueue := [],
       processes := map freshProcess defs,
       quantumDisplay := getQuantum quantumInput\<rparr>"

text \<open>
  The test of line 279, \<^verbatim>\<open>!p.arrived && p.arrivalTime <= currentTime\<close>; one iteration
  of the loop of \<^verbatim>\<open>arrivalsStep\<close> (lines 279-285), at the object in position \<open>i\<close>;
  and the loop over the array in its order (lines 277-287).
\<close>

definition due :: "int \<Rightarrow> process \<Rightarrow> bool" where
  "due t p = (\<not> arrived p \<and> arrivalTime p \<le> t)"

definition arriveOne :: "nat \<Rightarrow> state \<Rightarrow> state" where
  "arriveOne i s =
     (let p = processes s ! i in
      if due (currentTime s) p
      then s\<lparr>processes := (processes s)[i := p\<lparr>arrived := True\<rparr>],
             readyQueue := readyQueue s @ [i]\<rparr>
      else s)"

definition arrivalsStep :: "state \<Rightarrow> state" where
  "arrivalsStep s = fold arriveOne [0..<length (processes s)] s"

text \<open>\<^verbatim>\<open>allFinished\<close> (line 288).\<close>

definition allFinished :: "state \<Rightarrow> bool" where
  "allFinished s = list_all finished (processes s)"

text \<open>
  \<^verbatim>\<open>for (const q of readyQueue) q.waitingTime += 1\<close> (line 308): one write per entry
  of the queue, through the reference.
\<close>

definition bumpOne :: "nat \<Rightarrow> process list \<Rightarrow> process list" where
  "bumpOne i ps = ps[i := (ps ! i)\<lparr>waitingTime := waitingTime (ps ! i) + 1\<rparr>]"

definition bumpWaiting :: "nat list \<Rightarrow> process list \<Rightarrow> process list" where
  "bumpWaiting q ps = fold bumpOne q ps"

text \<open>
  \<^verbatim>\<open>tick\<close> (lines 290-351) in its three parts. Step 2, the dispatch (lines 295-301):
  \<^verbatim>\<open>readyQueue.shift()\<close> on a non-empty queue.
\<close>

definition dispatch :: "int option \<Rightarrow> state \<Rightarrow> state" where
  "dispatch quantumInput s =
     (case (currentCPU s, readyQueue s) of
        (None, next # rest) \<Rightarrow>
          s\<lparr>readyQueue := rest,
            currentCPU := Some \<lparr>proc = next, qLeft = getQuantum quantumInput\<rparr>\<rparr>
      | _ \<Rightarrow> s)"

text \<open>
  Step 3 (lines 304-344): one unit of execution or one idle unit. \<^verbatim>\<open>currentCPU.proc\<close> is
  an object, hence truthy, whenever \<^verbatim>\<open>currentCPU\<close> is not null.
\<close>

definition execute :: "state \<Rightarrow> state" where
  "execute s =
     (case currentCPU s of
        Some c \<Rightarrow>
          (let p = proc c;
               ps1 = bumpWaiting (readyQueue s) (processes s);
               ps2 = ps1[p := (ps1 ! p)\<lparr>remainingTime := max 0 (remainingTime (ps1 ! p) - 1)\<rparr>];
               q1 = max 0 (qLeft c - 1);
               s3 = arrivalsStep (s\<lparr>processes := ps2,
                                    currentCPU := Some (c\<lparr>qLeft := q1\<rparr>),
                                    currentTime := currentTime s + 1\<rparr>)
           in if remainingTime (processes s3 ! p) = 0
              then s3\<lparr>processes := (processes s3)[p := (processes s3 ! p)
                          \<lparr>finished := True, completionTime := Some (currentTime s3)\<rparr>],
                      currentCPU := None\<rparr>
              else if q1 = 0
              then s3\<lparr>readyQueue := readyQueue s3 @ [p], currentCPU := None\<rparr>
              else s3)
      | None \<Rightarrow> arrivalsStep (s\<lparr>currentTime := currentTime s + 1\<rparr>))"

text \<open>
  \<^verbatim>\<open>tick\<close>: arrivals at the current time, dispatch, execution. The argument
  \<open>quantumInput\<close> is what the quantum field holds when the tick runs. The final
  \<^verbatim>\<open>if (allFinished()) stopSim()\<close> only stops the interval timer.
\<close>

definition tick :: "int option \<Rightarrow> state \<Rightarrow> state" where
  "tick quantumInput s = execute (dispatch quantumInput (arrivalsStep s))"

text \<open>
  \<open>ticks qi n s\<close>: \<open>n\<close> calls of \<^verbatim>\<open>tick\<close> from \<open>s\<close>, where \<open>qi k\<close> is the content of the
  quantum field at call number \<open>k\<close> (counted from 0).
\<close>

fun ticks :: "(nat \<Rightarrow> int option) \<Rightarrow> nat \<Rightarrow> state \<Rightarrow> state" where
  "ticks qi 0 s = s"
| "ticks qi (Suc n) s = tick (qi n) (ticks qi n s)"

section \<open>Invariants of the run\<close>

text \<open>
  What \<^verbatim>\<open>arrivalsStep\<close> does to one object: the flag \<^verbatim>\<open>arrived\<close> is set when the test
  of line 279 holds.
\<close>

definition mark :: "int \<Rightarrow> process \<Rightarrow> process" where
  "mark t p = (if due t p then p\<lparr>arrived := True\<rparr> else p)"

text \<open>
  The precondition of section 4.1 of the specification on the process definitions:
  positive burst times, non-negative arrival times.
\<close>

definition validDefs :: "procdef list \<Rightarrow> bool" where
  "validDefs defs = list_all (\<lambda>d. 0 < burstTime d \<and> 0 \<le> arrivalTime d) defs"

text \<open>
  Where the references are: the queue holds each reference once, only to arrived and
  unfinished objects of the array; so does the CPU slot, and its occupant is not in the
  queue; a finished object has arrived; and an arrived, unfinished object is in the queue
  or in the CPU slot.
\<close>

definition wellFormed :: "state \<Rightarrow> bool" where
  "wellFormed s \<longleftrightarrow>
     distinct (readyQueue s) \<and>
     (\<forall>i \<in> set (readyQueue s).
        i < length (processes s) \<and> arrived (processes s ! i) \<and> \<not> finished (processes s ! i)) \<and>
     (\<forall>c. currentCPU s = Some c \<longrightarrow>
        proc c < length (processes s) \<and> arrived (processes s ! proc c) \<and>
        \<not> finished (processes s ! proc c) \<and> proc c \<notin> set (readyQueue s)) \<and>
     (\<forall>i < length (processes s). finished (processes s ! i) \<longrightarrow> arrived (processes s ! i)) \<and>
     (\<forall>i < length (processes s).
        arrived (processes s ! i) \<and> \<not> finished (processes s ! i) \<longrightarrow>
        i \<in> set (readyQueue s) \<or> (\<exists>c. currentCPU s = Some c \<and> proc c = i))"

text \<open>
  The bookkeeping of one object at clock value \<open>t\<close>: before its arrival nothing has been
  counted; between arrival and completion every unit of time since the arrival has been
  either a unit of waiting or a unit of execution; at completion the balance is frozen.
\<close>

definition procOK :: "int \<Rightarrow> process \<Rightarrow> bool" where
  "procOK t p \<longleftrightarrow>
     0 < burstTime p \<and> 0 \<le> arrivalTime p \<and>
     (\<not> arrived p \<longrightarrow> t \<le> arrivalTime p \<and> waitingTime p = 0 \<and> remainingTime p = burstTime p) \<and>
     (arrived p \<and> \<not> finished p \<longrightarrow>
        0 < remainingTime p \<and>
        waitingTime p + (burstTime p - remainingTime p) = t - arrivalTime p) \<and>
     (finished p \<longrightarrow>
        remainingTime p = 0 \<and>
        (\<exists>ct. completionTime p = Some ct \<and> waitingTime p = (ct - arrivalTime p) - burstTime p))"

definition timed :: "state \<Rightarrow> bool" where
  "timed s \<longleftrightarrow> (\<forall>i < length (processes s). procOK (currentTime s) (processes s ! i))"

text \<open>
  The two halves of the occupied branch of step 3, around its arrival scan:
  \<open>runUnit\<close> is lines 305-316 (waiting times, one unit of execution, the clock) and
  \<open>settle\<close> is lines 322-336 (completion or quantum expiry), where \<open>c\<close> is the CPU slot
  as the dispatch left it. \<open>execute\<close> is shown below to be their composition.
\<close>

definition runUnit :: "cpu \<Rightarrow> state \<Rightarrow> state" where
  "runUnit c s =
     (let p = proc c;
          ps1 = bumpWaiting (readyQueue s) (processes s)
      in s\<lparr>processes := ps1[p := (ps1 ! p)\<lparr>remainingTime := max 0 (remainingTime (ps1 ! p) - 1)\<rparr>],
           currentCPU := Some (c\<lparr>qLeft := max 0 (qLeft c - 1)\<rparr>),
           currentTime := currentTime s + 1\<rparr>)"

definition settle :: "cpu \<Rightarrow> state \<Rightarrow> state" where
  "settle c s =
     (let p = proc c in
      if remainingTime (processes s ! p) = 0
      then s\<lparr>processes := (processes s)[p := (processes s ! p)
                  \<lparr>finished := True, completionTime := Some (currentTime s)\<rparr>],
             currentCPU := None\<rparr>
      else if max 0 (qLeft c - 1) = 0
      then s\<lparr>readyQueue := readyQueue s @ [p], currentCPU := None\<rparr>
      else s)"

text \<open>
  The bookkeeping of the running object between \<open>runUnit\<close> and \<open>settle\<close>: it may have
  no time left and not be marked finished yet.
\<close>

definition procRun :: "int \<Rightarrow> process \<Rightarrow> bool" where
  "procRun t p \<longleftrightarrow>
     0 < burstTime p \<and> 0 \<le> arrivalTime p \<and> arrived p \<and> \<not> finished p \<and>
     0 \<le> remainingTime p \<and>
     waitingTime p + (burstTime p - remainingTime p) = t - arrivalTime p"

definition timedRun :: "nat \<Rightarrow> state \<Rightarrow> bool" where
  "timedRun p s \<longleftrightarrow>
     (\<forall>i < length (processes s).
        if i = p then procRun (currentTime s) (processes s ! i)
        else procOK (currentTime s) (processes s ! i))"

text \<open>After an arrival scan no object passes the test of line 279 any more.\<close>

definition noneDue :: "state \<Rightarrow> bool" where
  "noneDue s \<longleftrightarrow> (\<forall>i < length (processes s). \<not> due (currentTime s) (processes s ! i))"

text \<open>
  Quantities of the termination argument: the execution still owed, the largest arrival
  time, and the number of idle ticks (ticks whose dispatch leaves the CPU slot empty)
  among the first \<open>n\<close> ticks from \<open>s\<close>.
\<close>

definition work :: "state \<Rightarrow> int" where
  "work s = sum_list (map remainingTime (processes s))"

definition sumBurst :: "procdef list \<Rightarrow> int" where
  "sumBurst defs = sum_list (map burstTime defs)"

definition maxArrival :: "'a procdef_scheme list \<Rightarrow> int" where
  "maxArrival ps = foldr max (map arrivalTime ps) 0"

definition idleTick :: "int option \<Rightarrow> state \<Rightarrow> bool" where
  "idleTick quantumInput s \<longleftrightarrow> currentCPU (dispatch quantumInput (arrivalsStep s)) = None"

fun idleTicks :: "(nat \<Rightarrow> int option) \<Rightarrow> nat \<Rightarrow> state \<Rightarrow> nat" where
  "idleTicks qi 0 s = 0"
| "idleTicks qi (Suc n) s =
     idleTicks qi n s + (if idleTick (qi n) (ticks qi n s) then 1 else 0)"

text \<open>
  The processes that the arrival scan after the execution (line 319, or line 343 on an
  idle tick) of the tick made from \<open>s\<close> puts into the queue: those not arrived whose
  arrival time is the clock value after the increment, in the order of the array.
\<close>

definition lateArrivals :: "state \<Rightarrow> nat list" where
  "lateArrivals s =
     filter (\<lambda>i. \<not> arrived (processes s ! i) \<and> arrivalTime (processes s ! i) = currentTime s + 1)
       [0..<length (processes s)]"

text \<open>
  The measure of the termination argument: the execution still owed plus the time left
  until the last arrival.
\<close>

definition potential :: "state \<Rightarrow> int" where
  "potential s = work s + max 0 (maxArrival (processes s) - currentTime s)"

text \<open>
  The process that executes during the tick made from \<open>s\<close>: the occupant of the CPU slot
  once the arrival scan and the dispatch of that tick are done.
\<close>

definition runningIn :: "int option \<Rightarrow> state \<Rightarrow> nat option" where
  "runningIn quantumInput s =
     map_option proc (currentCPU (dispatch quantumInput (arrivalsStep s)))"

text \<open>
  Scenario B of section 8 of the specification: two processes, the quantum field set
  to 2 throughout, \<open>n\<close> ticks after a reset made in the state \<open>s0\<close>.
\<close>

definition scenarioB :: "procdef list" where
  "scenarioB =
     [\<lparr>pid = ''P1'', burstTime = 3, arrivalTime = 0, color = ''#e91e63''\<rparr>,
      \<lparr>pid = ''P2'', burstTime = 2, arrivalTime = 1, color = ''#9c27b0''\<rparr>]"

definition scenarioBRun :: "state \<Rightarrow> nat \<Rightarrow> state" where
  "scenarioBRun s0 n = ticks (\<lambda>_. Some 2) n (deepReset (Some 2) scenarioB s0)"

text \<open>A state to reset from: the values of the globals when the page is loaded.\<close>

definition pageLoad :: state where
  "pageLoad =
     \<lparr>processes = [], readyQueue = [], currentTime = 0, currentCPU = None,
      quantumDisplay = 1\<rparr>"

text \<open>
  The run of the page as it is: \<^verbatim>\<open>initialProcesses\<close> with the quantum field at 2.
\<close>

definition demoRun :: "nat \<Rightarrow> state" where
  "demoRun n = ticks (\<lambda>_. Some 2) n (deepReset (Some 2) initialProcesses pageLoad)"

text \<open>
  Two processes with a gap between them: the first is done at time 1, the second
  arrives at time 3.
\<close>

definition gapDefs :: "procdef list" where
  "gapDefs =
     [\<lparr>pid = ''P1'', burstTime = 1, arrivalTime = 0, color = ''#e91e63''\<rparr>,
      \<lparr>pid = ''P2'', burstTime = 1, arrivalTime = 3, color = ''#9c27b0''\<rparr>]"

definition gapRun :: "nat \<Rightarrow> state" where
  "gapRun n = ticks (\<lambda>_. Some 2) n (deepReset (Some 2) gapDefs pageLoad)"

section \<open>The loops in closed form\<close>

lemma fold_arriveOne:
  "k \<le> length (processes s) \<Longrightarrow>
   fold arriveOne [0..<k] s =
     s\<lparr>processes := map (mark (currentTime s)) (take k (processes s)) @ drop k (processes s),
       readyQueue := readyQueue s @ filter (\<lambda>i. due (currentTime s) (processes s ! i)) [0..<k]\<rparr>"
proof (induction k)
  case 0
  then show ?case by simp
next
  case (Suc k)
  define t where "t = currentTime s"
  define ps where "ps = processes s"
  define A where "A = map (mark t) (take k ps)"
  define Q where "Q = readyQueue s @ filter (\<lambda>i. due t (ps ! i)) [0..<k]"
  from Suc.prems have k: "k < length ps" by (simp add: ps_def)
  have lenA: "length A = k" using k by (simp add: A_def)
  have mid: "fold arriveOne [0..<k] s = s\<lparr>processes := A @ drop k ps, readyQueue := Q\<rparr>"
    using Suc.IH k by (simp add: t_def ps_def A_def Q_def)
  have nth: "(A @ drop k ps) ! k = ps ! k"
    using k lenA by (simp add: nth_append)
  have upd: "(A @ drop k ps)[k := x] = A @ x # drop (Suc k) ps" for x
    using k lenA by (simp add: list_update_append Cons_nth_drop_Suc [symmetric])
  have tk: "map (mark t) (take (Suc k) ps) = A @ [mark t (ps ! k)]"
    using k by (simp add: take_Suc_conv_app_nth A_def)
  have dk: "drop k ps = ps ! k # drop (Suc k) ps"
    using k by (simp add: Cons_nth_drop_Suc)
  have step: "fold arriveOne [0..<Suc k] s = arriveOne k (s\<lparr>processes := A @ drop k ps, readyQueue := Q\<rparr>)"
    by (simp add: mid)
  show ?case
  proof (cases "due t (ps ! k)")
    case True
    then have "arriveOne k (s\<lparr>processes := A @ drop k ps, readyQueue := Q\<rparr>)
        = s\<lparr>processes := A @ (ps ! k)\<lparr>arrived := True\<rparr> # drop (Suc k) ps, readyQueue := Q @ [k]\<rparr>"
      by (simp add: arriveOne_def Let_def nth upd t_def)
    moreover have "mark t (ps ! k) = (ps ! k)\<lparr>arrived := True\<rparr>"
      using True by (simp add: mark_def)
    ultimately show ?thesis
      using True unfolding step by (simp add: tk Q_def flip: t_def ps_def)
  next
    case False
    then have "arriveOne k (s\<lparr>processes := A @ drop k ps, readyQueue := Q\<rparr>)
        = s\<lparr>processes := A @ ps ! k # drop (Suc k) ps, readyQueue := Q\<rparr>"
      by (simp add: arriveOne_def Let_def nth t_def flip: dk)
    moreover have "mark t (ps ! k) = ps ! k"
      using False by (simp add: mark_def)
    ultimately show ?thesis
      using False unfolding step by (simp add: tk Q_def flip: t_def ps_def)
  qed
qed

lemma arrivalsStep_eq:
  "arrivalsStep s =
     s\<lparr>processes := map (mark (currentTime s)) (processes s),
       readyQueue := readyQueue s @ filter (\<lambda>i. due (currentTime s) (processes s ! i)) [0..<length (processes s)]\<rparr>"
  unfolding arrivalsStep_def by (simp add: fold_arriveOne)

lemma bumpWaiting_length [simp]: "length (bumpWaiting q ps) = length ps"
  unfolding bumpWaiting_def by (induction q arbitrary: ps) (simp_all add: bumpOne_def)

lemma bumpWaiting_nth:
  "i < length ps \<Longrightarrow>
   bumpWaiting q ps ! i = (ps ! i)\<lparr>waitingTime := waitingTime (ps ! i) + int (count_list q i)\<rparr>"
  unfolding bumpWaiting_def
proof (induction q arbitrary: ps)
  case Nil
  then show ?case by simp
next
  case (Cons j q)
  have len: "i < length (bumpOne j ps)" using Cons.prems by (simp add: bumpOne_def)
  show ?case
    using Cons.IH [OF len] Cons.prems
    by (cases "i = j") (simp_all add: bumpOne_def)
qed

lemma arrivalsStep_processes:
  "processes (arrivalsStep s) = map (mark (currentTime s)) (processes s)"
  by (simp add: arrivalsStep_eq)

lemma arrivalsStep_readyQueue:
  "readyQueue (arrivalsStep s) =
     readyQueue s @ filter (\<lambda>i. due (currentTime s) (processes s ! i)) [0..<length (processes s)]"
  by (simp add: arrivalsStep_eq)

lemma arrivalsStep_currentTime: "currentTime (arrivalsStep s) = currentTime s"
  by (simp add: arrivalsStep_eq)

lemma arrivalsStep_currentCPU: "currentCPU (arrivalsStep s) = currentCPU s"
  by (simp add: arrivalsStep_eq)

lemma arrivalsStep_quantumDisplay: "quantumDisplay (arrivalsStep s) = quantumDisplay s"
  by (simp add: arrivalsStep_eq)

lemmas arrivalsStep_simps =
  arrivalsStep_processes arrivalsStep_readyQueue arrivalsStep_currentTime
  arrivalsStep_currentCPU arrivalsStep_quantumDisplay

lemma dispatch_processes: "processes (dispatch q s) = processes s"
  by (simp add: dispatch_def split: option.splits list.splits)

lemma dispatch_currentTime: "currentTime (dispatch q s) = currentTime s"
  by (simp add: dispatch_def split: option.splits list.splits)

lemma execute_currentTime: "currentTime (execute s) = currentTime s + 1"
  by (simp add: execute_def Let_def arrivalsStep_currentTime split: option.splits)

lemma currentTime_tick: "currentTime (tick q s) = currentTime s + 1"
  by (simp add: tick_def execute_currentTime dispatch_currentTime arrivalsStep_currentTime)

lemma deepReset_prior: "deepReset q defs s = deepReset q defs s'"
  by (cases s, cases s') (simp add: deepReset_def)

section \<open>The invariants hold along every stage of a tick\<close>

lemma mark_fields:
  "arrived (mark t p) = (arrived p \<or> arrivalTime p \<le> t)"
  "finished (mark t p) = finished p"
  "remainingTime (mark t p) = remainingTime p"
  "waitingTime (mark t p) = waitingTime p"
  "completionTime (mark t p) = completionTime p"
  "burstTime (mark t p) = burstTime p"
  "arrivalTime (mark t p) = arrivalTime p"
  by (simp_all add: mark_def due_def)

lemma wellFormed_arrivalsStep: "wellFormed s \<Longrightarrow> wellFormed (arrivalsStep s)"
  unfolding wellFormed_def
  by (auto simp: arrivalsStep_simps mark_fields due_def)

lemma procOK_mark: "procOK t p \<Longrightarrow> procOK t (mark t p)"
  unfolding procOK_def by (auto simp: mark_fields)

lemma timed_arrivalsStep: "timed s \<Longrightarrow> timed (arrivalsStep s)"
  unfolding timed_def by (simp add: arrivalsStep_simps procOK_mark)

lemma noneDue_arrivalsStep: "noneDue (arrivalsStep s)"
  unfolding noneDue_def by (simp add: arrivalsStep_simps mark_fields due_def)

lemma dispatch_cases:
  "(currentCPU s = None \<and> (\<exists>i rest. readyQueue s = i # rest \<and>
      dispatch q s = s\<lparr>readyQueue := rest, currentCPU := Some \<lparr>proc = i, qLeft = getQuantum q\<rparr>\<rparr>))
   \<or> ((currentCPU s \<noteq> None \<or> readyQueue s = []) \<and> dispatch q s = s)"
  by (auto simp: dispatch_def split: option.splits list.splits)

lemma wellFormed_dispatch: "wellFormed s \<Longrightarrow> wellFormed (dispatch q s)"
  using dispatch_cases [of s q]
  unfolding wellFormed_def by auto

lemma timed_dispatch: "timed s \<Longrightarrow> timed (dispatch q s)"
  unfolding timed_def by (simp add: dispatch_processes dispatch_currentTime)

lemma noneDue_dispatch: "noneDue s \<Longrightarrow> noneDue (dispatch q s)"
  unfolding noneDue_def by (simp add: dispatch_processes dispatch_currentTime)

lemma dispatch_busy: "currentCPU (dispatch q s) = None \<Longrightarrow> readyQueue (dispatch q s) = []"
  using dispatch_cases [of s q] by auto


lemma execute_idle:
  "currentCPU s = None \<Longrightarrow> execute s = arrivalsStep (s\<lparr>currentTime := currentTime s + 1\<rparr>)"
  by (simp add: execute_def)

lemma execute_busy:
  "currentCPU s = Some c \<Longrightarrow> execute s = settle c (arrivalsStep (runUnit c s))"
  by (simp add: execute_def settle_def runUnit_def Let_def arrivalsStep_simps)

lemma count_list_distinct: "distinct q \<Longrightarrow> count_list q i = (if i \<in> set q then 1 else 0)"
  by (induction q) auto

lemma bumpWaiting_nth_distinct:
  "distinct q \<Longrightarrow> i < length ps \<Longrightarrow>
   bumpWaiting q ps ! i =
     (if i \<in> set q then (ps ! i)\<lparr>waitingTime := waitingTime (ps ! i) + 1\<rparr> else ps ! i)"
  by (simp add: bumpWaiting_nth count_list_distinct)

lemma runUnit_fields:
  "readyQueue (runUnit c s) = readyQueue s"
  "currentCPU (runUnit c s) = Some (c\<lparr>qLeft := max 0 (qLeft c - 1)\<rparr>)"
  "currentTime (runUnit c s) = currentTime s + 1"
  "length (processes (runUnit c s)) = length (processes s)"
  by (simp_all add: runUnit_def Let_def)

lemma runUnit_nth:
  "i < length (processes s) \<Longrightarrow>
   processes (runUnit c s) ! i =
     (let p = (processes s ! i)\<lparr>waitingTime := waitingTime (processes s ! i) + int (count_list (readyQueue s) i)\<rparr>
      in if i = proc c then p\<lparr>remainingTime := max 0 (remainingTime p - 1)\<rparr> else p)"
  by (simp add: runUnit_def Let_def nth_list_update bumpWaiting_nth)

lemma wellFormed_runUnit:
  "wellFormed s \<Longrightarrow> currentCPU s = Some c \<Longrightarrow> wellFormed (runUnit c s)"
  unfolding wellFormed_def
  by (auto simp: runUnit_fields runUnit_nth Let_def)

lemma timedRun_runUnit:
  assumes "wellFormed s" "timed s" "noneDue s" "currentCPU s = Some c"
  shows "timedRun (proc c) (runUnit c s)"
  unfolding timedRun_def
proof (intro allI impI)
  fix i assume "i < length (processes (runUnit c s))"
  then have i: "i < length (processes s)" by (simp add: runUnit_fields)
  have ok: "procOK (currentTime s) (processes s ! i)"
    using assms(2) i by (simp add: timed_def)
  have nd: "\<not> due (currentTime s) (processes s ! i)"
    using assms(3) i by (simp add: noneDue_def)
  have cnt: "count_list (readyQueue s) i = (if i \<in> set (readyQueue s) then 1 else 0)"
    using assms(1) by (simp add: count_list_distinct wellFormed_def)
  have pc: "proc c < length (processes s)" "arrived (processes s ! proc c)"
    "\<not> finished (processes s ! proc c)" "proc c \<notin> set (readyQueue s)"
    using assms(1,4) by (simp_all add: wellFormed_def)
  show "if i = proc c then procRun (currentTime (runUnit c s)) (processes (runUnit c s) ! i)
        else procOK (currentTime (runUnit c s)) (processes (runUnit c s) ! i)"
  proof (cases "i = proc c")
    case True
    with ok pc cnt show ?thesis
      by (simp add: runUnit_fields runUnit_nth i Let_def procRun_def procOK_def)
  next
    case False
    show ?thesis
    proof (cases "i \<in> set (readyQueue s)")
      case True
      then have "arrived (processes s ! i)" "\<not> finished (processes s ! i)"
        using assms(1) by (simp_all add: wellFormed_def)
      with ok False True cnt show ?thesis
        by (simp add: runUnit_fields runUnit_nth i Let_def procOK_def)
    next
      case notq: False
      have "\<not> (arrived (processes s ! i) \<and> \<not> finished (processes s ! i))"
        using assms(1,4) i notq False by (auto simp: wellFormed_def)
      with ok nd False notq cnt show ?thesis
        by (auto simp: runUnit_fields runUnit_nth i Let_def procOK_def due_def)
    qed
  qed
qed

lemma procRun_mark: "procRun t p \<Longrightarrow> procRun t (mark t p)"
  unfolding procRun_def by (simp add: mark_fields)

lemma timedRun_arrivalsStep: "timedRun p s \<Longrightarrow> timedRun p (arrivalsStep s)"
  unfolding timedRun_def by (simp add: arrivalsStep_simps procOK_mark procRun_mark)

lemma settle_fields:
  "currentTime (settle c s) = currentTime s"
  "length (processes (settle c s)) = length (processes s)"
  by (simp_all add: settle_def Let_def)

lemma wellFormed_settle:
  assumes "wellFormed s" "currentCPU s = Some c'" "proc c' = proc c"
  shows "wellFormed (settle c s)"
  using assms unfolding wellFormed_def settle_def Let_def
  by (auto simp: nth_list_update)

lemma timed_settle:
  assumes "timedRun (proc c) s" "proc c < length (processes s)"
  shows "timed (settle c s)"
  unfolding timed_def
proof (intro allI impI)
  fix i assume "i < length (processes (settle c s))"
  then have i: "i < length (processes s)" by (simp add: settle_fields)
  show "procOK (currentTime (settle c s)) (processes (settle c s) ! i)"
  proof (cases "i = proc c")
    case True
    then have "procRun (currentTime s) (processes s ! proc c)"
      using assms(1) i by (simp add: timedRun_def)
    then show ?thesis
      using True i by (auto simp: settle_def Let_def procRun_def procOK_def)
  next
    case False
    then have "procOK (currentTime s) (processes s ! i)"
      using assms(1) i by (simp add: timedRun_def)
    then show ?thesis
      using False i by (simp add: settle_def Let_def)
  qed
qed

lemma wellFormed_clock: "wellFormed (s\<lparr>currentTime := t\<rparr>) = wellFormed s"
  by (simp add: wellFormed_def)

lemma wellFormed_execute: "wellFormed s \<Longrightarrow> wellFormed (execute s)"
proof (cases "currentCPU s")
  case None
  assume "wellFormed s"
  then show ?thesis
    by (simp add: execute_idle None wellFormed_arrivalsStep wellFormed_clock)
next
  case (Some c)
  assume wf: "wellFormed s"
  have "wellFormed (arrivalsStep (runUnit c s))"
    using wf Some by (simp add: wellFormed_arrivalsStep wellFormed_runUnit)
  moreover have "currentCPU (arrivalsStep (runUnit c s)) = Some (c\<lparr>qLeft := max 0 (qLeft c - 1)\<rparr>)"
    by (simp add: arrivalsStep_currentCPU runUnit_fields)
  ultimately show ?thesis
    using wellFormed_settle [of "arrivalsStep (runUnit c s)" "c\<lparr>qLeft := max 0 (qLeft c - 1)\<rparr>" c]
    by (simp add: execute_busy Some)
qed

lemma wellFormed_tick: "wellFormed s \<Longrightarrow> wellFormed (tick q s)"
  by (simp add: tick_def wellFormed_execute wellFormed_dispatch wellFormed_arrivalsStep)

lemma timed_idle:
  assumes "wellFormed s" "timed s" "noneDue s" "currentCPU s = None" "readyQueue s = []"
  shows "timed (s\<lparr>currentTime := currentTime s + 1\<rparr>)"
  unfolding timed_def
proof (intro allI impI)
  fix i assume "i < length (processes (s\<lparr>currentTime := currentTime s + 1\<rparr>))"
  then have i: "i < length (processes s)" by simp
  have ok: "procOK (currentTime s) (processes s ! i)"
    using assms(2) i by (simp add: timed_def)
  have nd: "\<not> due (currentTime s) (processes s ! i)"
    using assms(3) i by (simp add: noneDue_def)
  have "\<not> (arrived (processes s ! i) \<and> \<not> finished (processes s ! i))"
    using assms(1,4,5) i by (auto simp: wellFormed_def)
  with ok nd show "procOK (currentTime (s\<lparr>currentTime := currentTime s + 1\<rparr>))
      (processes (s\<lparr>currentTime := currentTime s + 1\<rparr>) ! i)"
    by (auto simp: procOK_def due_def)
qed

lemma timed_execute:
  assumes "wellFormed s" "timed s" "noneDue s" "currentCPU s = None \<longrightarrow> readyQueue s = []"
  shows "timed (execute s)"
proof (cases "currentCPU s")
  case None
  with assms show ?thesis
    by (simp add: execute_idle timed_arrivalsStep timed_idle)
next
  case (Some c)
  have "timedRun (proc c) (arrivalsStep (runUnit c s))"
    using assms Some by (simp add: timedRun_arrivalsStep timedRun_runUnit)
  moreover have "proc c < length (processes (arrivalsStep (runUnit c s)))"
    using assms(1) Some by (simp add: arrivalsStep_processes runUnit_fields wellFormed_def)
  ultimately show ?thesis
    by (simp add: execute_busy Some timed_settle)
qed

lemma timed_tick: "wellFormed s \<Longrightarrow> timed s \<Longrightarrow> timed (tick q s)"
  unfolding tick_def
  by (intro timed_execute wellFormed_dispatch wellFormed_arrivalsStep timed_dispatch
      timed_arrivalsStep noneDue_dispatch noneDue_arrivalsStep impI dispatch_busy)

lemma wellFormed_deepReset: "wellFormed (deepReset q defs s)"
  by (simp add: wellFormed_def deepReset_def freshProcess_def)

lemma timed_deepReset: "validDefs defs \<Longrightarrow> timed (deepReset q defs s)"
  by (simp add: timed_def deepReset_def freshProcess_def procOK_def validDefs_def list_all_length)

lemma wellFormed_ticks: "wellFormed (ticks qi n (deepReset q defs s))"
  by (induction n) (simp_all add: wellFormed_deepReset wellFormed_tick)

lemma timed_ticks: "validDefs defs \<Longrightarrow> timed (ticks qi n (deepReset q defs s))"
  by (induction n) (simp_all add: timed_deepReset timed_tick wellFormed_ticks)


lemma length_arrivalsStep: "length (processes (arrivalsStep s)) = length (processes s)"
  by (simp add: arrivalsStep_processes)

lemma length_execute: "length (processes (execute s)) = length (processes s)"
  by (cases "currentCPU s")
     (simp_all add: execute_idle execute_busy settle_fields length_arrivalsStep runUnit_fields)

lemma length_tick: "length (processes (tick q s)) = length (processes s)"
  by (simp add: tick_def length_execute dispatch_processes length_arrivalsStep)

lemma length_ticks: "length (processes (ticks qi n (deepReset q defs s))) = length defs"
  by (induction n) (simp_all add: length_tick deepReset_def)

lemma nth_update_field:
  "f y = f (xs ! k) \<Longrightarrow> f (xs[k := y] ! i) = f (xs ! i)"
  by (cases "k < length xs"; cases "i = k") (simp_all add: list_update_beyond)

lemma settle_nth_static:
  "burstTime (processes (settle c s) ! i) = burstTime (processes s ! i)"
  "arrivalTime (processes (settle c s) ! i) = arrivalTime (processes s ! i)"
  by (simp_all add: settle_def Let_def nth_update_field)

lemma static_execute:
  assumes "i < length (processes s)"
  shows "burstTime (processes (execute s) ! i) = burstTime (processes s ! i)"
    and "arrivalTime (processes (execute s) ! i) = arrivalTime (processes s ! i)"
proof -
  show "burstTime (processes (execute s) ! i) = burstTime (processes s ! i)"
    using assms
    by (cases "currentCPU s")
       (simp_all add: execute_idle execute_busy settle_nth_static arrivalsStep_processes
        runUnit_fields runUnit_nth mark_fields Let_def)
  show "arrivalTime (processes (execute s) ! i) = arrivalTime (processes s ! i)"
    using assms
    by (cases "currentCPU s")
       (simp_all add: execute_idle execute_busy settle_nth_static arrivalsStep_processes
        runUnit_fields runUnit_nth mark_fields Let_def)
qed

lemma static_tick:
  assumes "i < length (processes s)"
  shows "burstTime (processes (tick q s) ! i) = burstTime (processes s ! i)"
    and "arrivalTime (processes (tick q s) ! i) = arrivalTime (processes s ! i)"
  using assms
  by (simp_all add: tick_def static_execute dispatch_processes arrivalsStep_processes mark_fields)

lemma static_ticks:
  assumes "i < length defs"
  shows "burstTime (processes (ticks qi n (deepReset q defs s)) ! i) = burstTime (defs ! i)"
    and "arrivalTime (processes (ticks qi n (deepReset q defs s)) ! i) = arrivalTime (defs ! i)"
  using assms
  by (induction n) (simp_all add: static_tick length_ticks, simp_all add: deepReset_def freshProcess_def)

lemma tick_allFinished:
  assumes "wellFormed s" "allFinished s"
  shows "tick q s = s\<lparr>currentTime := currentTime s + 1\<rparr>"
proof -
  have fin: "\<And>i. i < length (processes s) \<Longrightarrow> finished (processes s ! i)"
    using assms(2) by (simp add: allFinished_def list_all_length)
  have q: "readyQueue s = []"
  proof (cases "readyQueue s")
    case (Cons i rest)
    then have "i \<in> set (readyQueue s)" by simp
    with assms(1) fin show ?thesis unfolding wellFormed_def by blast
  qed simp
  have c: "currentCPU s = None"
  proof (cases "currentCPU s")
    case (Some c)
    with assms(1) fin show ?thesis unfolding wellFormed_def by blast
  qed simp
  have nd: "\<And>t i. i < length (processes s) \<Longrightarrow> \<not> due t (processes s ! i)"
    using assms(1) fin unfolding wellFormed_def due_def by blast
  have scan: "arrivalsStep (s\<lparr>currentTime := t\<rparr>) = s\<lparr>currentTime := t\<rparr>" for t
  proof -
    have "map (mark t) (processes s) = processes s"
      using nd by (intro nth_equalityI) (simp_all add: mark_def)
    moreover have "filter (\<lambda>i. due t (processes s ! i)) [0..<length (processes s)] = []"
      using nd by (simp add: filter_empty_conv)
    ultimately show ?thesis
      by (simp add: arrivalsStep_eq q)
  qed
  have "arrivalsStep s = s" using scan [of "currentTime s"] by simp
  moreover have "dispatch q s = s" by (simp add: dispatch_def c q)
  ultimately show ?thesis
    by (simp add: tick_def execute_idle c scan)
qed

section \<open>The effect of one tick\<close>

lemma tick_busy:
  "currentCPU (dispatch q (arrivalsStep s)) = Some c \<Longrightarrow>
   tick q s = settle c (arrivalsStep (runUnit c (dispatch q (arrivalsStep s))))"
  by (simp add: tick_def execute_busy)

lemma tick_idle:
  "currentCPU (dispatch q (arrivalsStep s)) = None \<Longrightarrow>
   tick q s = arrivalsStep ((dispatch q (arrivalsStep s))\<lparr>currentTime := currentTime s + 1\<rparr>)"
  by (simp add: tick_def execute_idle dispatch_currentTime arrivalsStep_currentTime)

lemma due_next_mark:
  "due (t + 1) (mark t p) = (\<not> arrived p \<and> arrivalTime p = t + 1)"
  by (auto simp: due_def mark_def)

lemma postscan_queue:
  "readyQueue (arrivalsStep (runUnit c (dispatch q (arrivalsStep s))))
     = readyQueue (dispatch q (arrivalsStep s)) @ lateArrivals s"
proof -
  let ?s1 = "dispatch q (arrivalsStep s)"
  have "due (currentTime s + 1) (processes (runUnit c ?s1) ! i)
        = (\<not> arrived (processes s ! i) \<and> arrivalTime (processes s ! i) = currentTime s + 1)"
    if "i < length (processes s)" for i
  proof -
    have "due (currentTime s + 1) (processes (runUnit c ?s1) ! i)
        = due (currentTime s + 1) (mark (currentTime s) (processes s ! i))"
      using that
      by (simp add: due_def runUnit_nth dispatch_processes arrivalsStep_processes Let_def)
    then show ?thesis by (simp add: due_next_mark)
  qed
  then have "filter (\<lambda>i. due (currentTime s + 1) (processes (runUnit c ?s1) ! i)) [0..<length (processes s)]
      = lateArrivals s"
    unfolding lateArrivals_def by (intro filter_cong) simp_all
  then show ?thesis
    by (simp add: arrivalsStep_readyQueue runUnit_fields dispatch_processes dispatch_currentTime
        arrivalsStep_processes arrivalsStep_currentTime)
qed

lemma postscan_remaining:
  assumes "proc c < length (processes s)"
  shows "remainingTime (processes (arrivalsStep (runUnit c (dispatch q (arrivalsStep s)))) ! proc c)
     = max 0 (remainingTime (processes s ! proc c) - 1)"
  using assms
  by (simp add: arrivalsStep_processes runUnit_fields runUnit_nth dispatch_processes
      mark_fields Let_def)

lemma postscan_fields:
  "currentTime (arrivalsStep (runUnit c (dispatch q (arrivalsStep s)))) = currentTime s + 1"
  "currentCPU (arrivalsStep (runUnit c (dispatch q (arrivalsStep s))))
     = Some (c\<lparr>qLeft := max 0 (qLeft c - 1)\<rparr>)"
  "length (processes (arrivalsStep (runUnit c (dispatch q (arrivalsStep s))))) = length (processes s)"
  by (simp_all add: arrivalsStep_simps runUnit_fields dispatch_processes dispatch_currentTime)

lemma waiting_tick:
  assumes "i < length (processes s)"
  shows "waitingTime (processes (tick q s) ! i)
     = waitingTime (processes s ! i) +
       (if currentCPU (dispatch q (arrivalsStep s)) = None then 0
        else int (count_list (readyQueue (dispatch q (arrivalsStep s))) i))"
proof (cases "currentCPU (dispatch q (arrivalsStep s))")
  case None
  then show ?thesis
    using assms
    by (simp add: tick_idle arrivalsStep_processes dispatch_processes mark_fields)
next
  case (Some c)
  have "waitingTime (processes (tick q s) ! i)
      = waitingTime (processes (arrivalsStep (runUnit c (dispatch q (arrivalsStep s)))) ! i)"
    by (simp add: tick_busy [OF Some] settle_def Let_def nth_update_field)
  also have "\<dots> = waitingTime (processes s ! i)
      + int (count_list (readyQueue (dispatch q (arrivalsStep s))) i)"
    using assms
    by (simp add: arrivalsStep_processes runUnit_fields runUnit_nth dispatch_processes
        mark_fields Let_def)
  finally show ?thesis by (simp add: Some)
qed

section \<open>Work, idle ticks and the termination measure\<close>

lemma sum_list_update_int:
  "i < length xs \<Longrightarrow> sum_list (xs[i := v]) = sum_list xs - xs ! i + (v::int)"
  by (induction xs arbitrary: i) (auto split: nat.splits)

lemma remaining_tick_idle:
  assumes "currentCPU (dispatch q (arrivalsStep s)) = None"
  shows "map remainingTime (processes (tick q s)) = map remainingTime (processes s)"
  by (simp add: tick_idle [OF assms] arrivalsStep_processes dispatch_processes mark_fields comp_def)

lemma remaining_tick_busy:
  assumes "currentCPU (dispatch q (arrivalsStep s)) = Some c"
  shows "map remainingTime (processes (tick q s))
     = (map remainingTime (processes s))
         [proc c := max 0 (remainingTime (processes s ! proc c) - 1)]"
proof (rule nth_equalityI)
  show "length (map remainingTime (processes (tick q s)))
      = length ((map remainingTime (processes s))[proc c := max 0 (remainingTime (processes s ! proc c) - 1)])"
    by (simp add: length_tick)
next
  fix i assume "i < length (map remainingTime (processes (tick q s)))"
  then have i: "i < length (processes s)" by (simp add: length_tick)
  have "remainingTime (processes (tick q s) ! i)
      = remainingTime (processes (arrivalsStep (runUnit c (dispatch q (arrivalsStep s)))) ! i)"
    by (simp add: tick_busy [OF assms] settle_def Let_def nth_update_field)
  also have "\<dots> = (if i = proc c then max 0 (remainingTime (processes s ! i) - 1)
                     else remainingTime (processes s ! i))"
    using i
    by (simp add: arrivalsStep_processes runUnit_fields runUnit_nth dispatch_processes
        mark_fields Let_def)
  finally show "map remainingTime (processes (tick q s)) ! i
      = (map remainingTime (processes s))[proc c := max 0 (remainingTime (processes s ! proc c) - 1)] ! i"
    using i by (simp add: length_tick nth_list_update)
qed

lemma running_positive:
  assumes "wellFormed s" "timed s" "currentCPU (dispatch q (arrivalsStep s)) = Some c"
  shows "proc c < length (processes s) \<and> 0 < remainingTime (processes s ! proc c)"
proof -
  let ?s1 = "dispatch q (arrivalsStep s)"
  have wf: "wellFormed ?s1"
    using assms(1) by (simp add: wellFormed_dispatch wellFormed_arrivalsStep)
  have tm: "timed ?s1"
    using assms(2) by (simp add: timed_dispatch timed_arrivalsStep)
  have c: "proc c < length (processes ?s1)" "arrived (processes ?s1 ! proc c)"
    "\<not> finished (processes ?s1 ! proc c)"
    using wf assms(3) by (simp_all add: wellFormed_def)
  then have "0 < remainingTime (processes ?s1 ! proc c)"
    using tm by (simp add: timed_def procOK_def)
  with c(1) show ?thesis
    by (simp add: dispatch_processes arrivalsStep_processes mark_fields)
qed

lemma work_tick:
  assumes "wellFormed s" "timed s"
  shows "work (tick q s) = work s - (if idleTick q s then 0 else 1)"
proof (cases "currentCPU (dispatch q (arrivalsStep s))")
  case None
  then show ?thesis
    by (simp add: work_def remaining_tick_idle idleTick_def)
next
  case (Some c)
  from running_positive [OF assms Some]
  have c: "proc c < length (processes s)" and r: "0 < remainingTime (processes s ! proc c)"
    by simp_all
  show ?thesis
    using c r
    by (simp add: work_def remaining_tick_busy [OF Some] sum_list_update_int idleTick_def Some)
qed

lemma work_deepReset: "work (deepReset q defs s) = sumBurst defs"
  by (simp add: work_def sumBurst_def deepReset_def freshProcess_def comp_def)

lemma accounting:
  assumes "validDefs defs"
  shows "int n = sumBurst defs - work (ticks qi n (deepReset q0 defs s0))
                 + int (idleTicks qi n (deepReset q0 defs s0))"
proof (induction n)
  case 0
  show ?case by (simp add: work_deepReset)
next
  case (Suc n)
  have "work (ticks qi (Suc n) (deepReset q0 defs s0))
      = work (ticks qi n (deepReset q0 defs s0))
        - (if idleTick (qi n) (ticks qi n (deepReset q0 defs s0)) then 0 else 1)"
    using work_tick [OF wellFormed_ticks timed_ticks [OF assms]] by simp
  with Suc show ?case by simp
qed

lemma sum_list_int_nonneg_member:
  "(\<And>x. x \<in> set xs \<Longrightarrow> (0::int) \<le> x) \<Longrightarrow> y \<in> set xs \<Longrightarrow> y \<le> sum_list xs"
proof (induction xs)
  case Nil
  then show ?case by simp
next
  case (Cons a xs)
  have "0 \<le> sum_list xs" using Cons.prems(1) by (simp add: sum_list_nonneg)
  moreover have "0 \<le> a" using Cons.prems(1) by simp
  moreover have "y \<le> sum_list xs" if "y \<in> set xs"
    using Cons.IH Cons.prems(1) that by simp
  ultimately show ?case using Cons.prems(2) by auto
qed

lemma timed_remaining:
  assumes "timed s" "i < length (processes s)"
  shows "0 \<le> remainingTime (processes s ! i)"
    and "\<not> finished (processes s ! i) \<Longrightarrow> 0 < remainingTime (processes s ! i)"
    and "finished (processes s ! i) \<Longrightarrow> remainingTime (processes s ! i) = 0"
proof -
  have ok: "procOK (currentTime s) (processes s ! i)"
    using assms by (simp add: timed_def)
  show "\<not> finished (processes s ! i) \<Longrightarrow> 0 < remainingTime (processes s ! i)"
    using ok by (cases "arrived (processes s ! i)") (simp_all add: procOK_def)
  show "finished (processes s ! i) \<Longrightarrow> remainingTime (processes s ! i) = 0"
    using ok by (simp add: procOK_def)
  show "0 \<le> remainingTime (processes s ! i)"
    using ok by (cases "arrived (processes s ! i)"; cases "finished (processes s ! i)")
      (simp_all add: procOK_def)
qed

lemma work_allFinished:
  assumes "timed s" "allFinished s"
  shows "work s = 0"
proof -
  have "map remainingTime (processes s) = replicate (length (processes s)) 0"
    using assms timed_remaining(3) [OF assms(1)]
    by (intro nth_equalityI) (simp_all add: allFinished_def list_all_length)
  then show ?thesis by (simp add: work_def sum_list_replicate)
qed

lemma work_unfinished:
  assumes "timed s" "\<not> allFinished s"
  shows "0 < work s"
proof -
  from assms(2) obtain i where i: "i < length (processes s)" "\<not> finished (processes s ! i)"
    by (auto simp: allFinished_def list_all_length)
  have "remainingTime (processes s ! i) \<le> sum_list (map remainingTime (processes s))"
  proof (rule sum_list_int_nonneg_member)
    fix x assume "x \<in> set (map remainingTime (processes s))"
    then obtain j where "j < length (processes s)" "x = remainingTime (processes s ! j)"
      by (auto simp: in_set_conv_nth)
    then show "0 \<le> x" using timed_remaining(1) [OF assms(1)] by simp
  next
    show "remainingTime (processes s ! i) \<in> set (map remainingTime (processes s))"
      using i(1) by simp
  qed
  moreover have "0 < remainingTime (processes s ! i)"
    using timed_remaining(2) [OF assms(1) i(1)] i(2) by simp
  ultimately show ?thesis by (simp add: work_def)
qed


lemma maxArrival_ge: "i < length ps \<Longrightarrow> arrivalTime (ps ! i) \<le> maxArrival ps"
  unfolding maxArrival_def
  by (induction ps arbitrary: i) (auto simp: less_Suc_eq_0_disj le_max_iff_disj)

lemma maxArrival_nonneg: "0 \<le> maxArrival ps"
  unfolding maxArrival_def by (induction ps) simp_all

lemma arrival_tick: "map arrivalTime (processes (tick q s)) = map arrivalTime (processes s)"
  by (intro nth_equalityI) (simp_all add: length_tick static_tick)

lemma maxArrival_tick: "maxArrival (processes (tick q s)) = maxArrival (processes s)"
  by (simp add: maxArrival_def arrival_tick)

lemma maxArrival_deepReset: "maxArrival (processes (deepReset q defs s)) = maxArrival defs"
  by (simp add: maxArrival_def deepReset_def freshProcess_def comp_def)

lemma currentTime_deepReset: "currentTime (deepReset q defs s) = 0"
  by (simp add: deepReset_def)

lemma sumBurst_nonneg: "validDefs defs \<Longrightarrow> 0 \<le> sumBurst defs"
  unfolding sumBurst_def validDefs_def
  by (intro sum_list_nonneg) (auto simp: list_all_iff)

lemma idle_before_arrival:
  assumes "wellFormed s" "\<not> allFinished s" "idleTick q s"
  shows "currentTime s < maxArrival (processes s)"
proof -
  let ?s1 = "dispatch q (arrivalsStep s)"
  from assms(2) obtain i where i: "i < length (processes s)" "\<not> finished (processes s ! i)"
    by (auto simp: allFinished_def list_all_length)
  have wf: "wellFormed ?s1"
    using assms(1) by (simp add: wellFormed_dispatch wellFormed_arrivalsStep)
  have cpu: "currentCPU ?s1 = None" using assms(3) by (simp add: idleTick_def)
  then have q: "readyQueue ?s1 = []" by (rule dispatch_busy)
  have i1: "i < length (processes ?s1)" "\<not> finished (processes ?s1 ! i)"
    using i by (simp_all add: dispatch_processes arrivalsStep_processes mark_fields)
  have "\<not> arrived (processes ?s1 ! i)"
    using wf cpu q i1 unfolding wellFormed_def by auto
  then have "currentTime s < arrivalTime (processes s ! i)"
    using i(1) by (simp add: dispatch_processes arrivalsStep_processes mark_fields)
  with maxArrival_ge [OF i(1)] show ?thesis by simp
qed

lemma potential_tick:
  assumes "wellFormed s" "timed s" "\<not> allFinished s"
  shows "potential (tick q s) \<le> potential s - 1"
proof (cases "idleTick q s")
  case True
  with idle_before_arrival [OF assms(1,3)] work_tick [OF assms(1,2), of q] show ?thesis
    by (simp add: potential_def maxArrival_tick currentTime_tick)
next
  case False
  with work_tick [OF assms(1,2), of q] show ?thesis
    by (simp add: potential_def maxArrival_tick currentTime_tick)
qed

lemma allFinished_tick:
  assumes "wellFormed s" "allFinished s"
  shows "allFinished (tick q s)"
  using assms by (simp add: tick_allFinished allFinished_def)

lemma potential_ticks:
  assumes "validDefs defs"
  shows "allFinished (ticks qi n (deepReset q0 defs s0)) \<or>
         potential (ticks qi n (deepReset q0 defs s0)) + int n \<le> sumBurst defs + maxArrival defs"
proof (induction n)
  case 0
  show ?case
    by (simp add: potential_def work_deepReset maxArrival_deepReset maxArrival_nonneg
        currentTime_deepReset)
next
  case (Suc n)
  let ?s = "ticks qi n (deepReset q0 defs s0)"
  show ?case
  proof (cases "allFinished ?s")
    case True
    then show ?thesis using allFinished_tick [OF wellFormed_ticks] by simp
  next
    case False
    from potential_tick [OF wellFormed_ticks timed_ticks [OF assms] False, of "qi n"] Suc False
    show ?thesis by simp
  qed
qed

lemma potential_nonneg_work: "work s \<le> potential s"
  by (simp add: potential_def)

lemma finished_by_bound:
  assumes "validDefs defs"
  shows "allFinished (ticks qi (nat (sumBurst defs + maxArrival defs)) (deepReset q0 defs s0))"
proof (rule ccontr)
  let ?N = "nat (sumBurst defs + maxArrival defs)"
  let ?s = "ticks qi ?N (deepReset q0 defs s0)"
  assume nf: "\<not> allFinished ?s"
  then have "potential ?s + int ?N \<le> sumBurst defs + maxArrival defs"
    using potential_ticks [OF assms, of qi ?N q0 s0] by simp
  moreover have "0 < work ?s"
    using work_unfinished [OF timed_ticks [OF assms] nf] .
  moreover have "work ?s \<le> potential ?s" by (rule potential_nonneg_work)
  moreover have "0 \<le> sumBurst defs + maxArrival defs"
    using sumBurst_nonneg [OF assms] maxArrival_nonneg [of defs] by simp
  ultimately show False by simp
qed

section \<open>The clock\<close>

text \<open>
  Claim C8. Every call of \<^verbatim>\<open>tick\<close>, from any state and whatever the quantum field
  holds, leaves the clock at exactly its former value plus 1: on a tick that executes a
  process and on an idle tick alike, before completion and after it. So \<^verbatim>\<open>tick\<close> never
  decreases the clock and never advances it by more than 1.
\<close>

theorem tick_clock: "currentTime (tick quantumInput s) = currentTime s + 1"
  by (simp add: tick_def execute_currentTime dispatch_currentTime arrivalsStep_currentTime)

section \<open>Scenario B\<close>

text \<open>
  Claim C2. After a reset with P1 (burst 3, arrival 0), P2 (burst 2, arrival 1) and
  quantum 2: P1 executes in ticks 1 and 2; P2, not arrived after the first scan of
  tick 1, is put into the queue by the scan that follows the execution of tick 1; at
  the end of tick 2 the CPU slot is empty and the queue is P2, P1; P2 executes in ticks
  3 and 4 and is finished with completion time 4; P1 executes in tick 5 and is finished
  with completion time 5; the waiting times are 2 for P1 and 1 for P2. The five states
  are given in full.
\<close>

theorem scenarioB_trace:
  "runningIn (Some 2) (scenarioBRun s0 0) = Some 0 \<and>
   \<not> arrived (processes (arrivalsStep (scenarioBRun s0 0)) ! 1) \<and>
   lateArrivals (scenarioBRun s0 0) = [1] \<and>
   scenarioBRun s0 1 =
     \<lparr>processes =
        [\<lparr>pid = ''P1'', burstTime = 3, arrivalTime = 0, color = ''#e91e63'',
          remainingTime = 2, waitingTime = 0, completionTime = None,
          arrived = True, finished = False\<rparr>,
         \<lparr>pid = ''P2'', burstTime = 2, arrivalTime = 1, color = ''#9c27b0'',
          remainingTime = 2, waitingTime = 0, completionTime = None,
          arrived = True, finished = False\<rparr>],
      readyQueue = [1], currentTime = 1,
      currentCPU = Some \<lparr>proc = 0, qLeft = 1\<rparr>, quantumDisplay = 2\<rparr> \<and>
   runningIn (Some 2) (scenarioBRun s0 1) = Some 0 \<and>
   scenarioBRun s0 2 =
     \<lparr>processes =
        [\<lparr>pid = ''P1'', burstTime = 3, arrivalTime = 0, color = ''#e91e63'',
          remainingTime = 1, waitingTime = 0, completionTime = None,
          arrived = True, finished = False\<rparr>,
         \<lparr>pid = ''P2'', burstTime = 2, arrivalTime = 1, color = ''#9c27b0'',
          remainingTime = 2, waitingTime = 1, completionTime = None,
          arrived = True, finished = False\<rparr>],
      readyQueue = [1, 0], currentTime = 2,
      currentCPU = None, quantumDisplay = 2\<rparr> \<and>
   runningIn (Some 2) (scenarioBRun s0 2) = Some 1 \<and>
   scenarioBRun s0 3 =
     \<lparr>processes =
        [\<lparr>pid = ''P1'', burstTime = 3, arrivalTime = 0, color = ''#e91e63'',
          remainingTime = 1, waitingTime = 1, completionTime = None,
          arrived = True, finished = False\<rparr>,
         \<lparr>pid = ''P2'', burstTime = 2, arrivalTime = 1, color = ''#9c27b0'',
          remainingTime = 1, waitingTime = 1, completionTime = None,
          arrived = True, finished = False\<rparr>],
      readyQueue = [0], currentTime = 3,
      currentCPU = Some \<lparr>proc = 1, qLeft = 1\<rparr>, quantumDisplay = 2\<rparr> \<and>
   runningIn (Some 2) (scenarioBRun s0 3) = Some 1 \<and>
   scenarioBRun s0 4 =
     \<lparr>processes =
        [\<lparr>pid = ''P1'', burstTime = 3, arrivalTime = 0, color = ''#e91e63'',
          remainingTime = 1, waitingTime = 2, completionTime = None,
          arrived = True, finished = False\<rparr>,
         \<lparr>pid = ''P2'', burstTime = 2, arrivalTime = 1, color = ''#9c27b0'',
          remainingTime = 0, waitingTime = 1, completionTime = Some 4,
          arrived = True, finished = True\<rparr>],
      readyQueue = [0], currentTime = 4,
      currentCPU = None, quantumDisplay = 2\<rparr> \<and>
   runningIn (Some 2) (scenarioBRun s0 4) = Some 0 \<and>
   scenarioBRun s0 5 =
     \<lparr>processes =
        [\<lparr>pid = ''P1'', burstTime = 3, arrivalTime = 0, color = ''#e91e63'',
          remainingTime = 0, waitingTime = 2, completionTime = Some 5,
          arrived = True, finished = True\<rparr>,
         \<lparr>pid = ''P2'', burstTime = 2, arrivalTime = 1, color = ''#9c27b0'',
          remainingTime = 0, waitingTime = 1, completionTime = Some 4,
          arrived = True, finished = True\<rparr>],
      readyQueue = [], currentTime = 5,
      currentCPU = None, quantumDisplay = 2\<rparr> \<and>
   allFinished (scenarioBRun s0 5)"
  unfolding scenarioBRun_def deepReset_prior [of _ _ s0 pageLoad]
  by code_simp

section \<open>Waiting time and turnaround\<close>

text \<open>
  Claim C1. For process definitions with positive burst times and non-negative arrival
  times, in every state reached from a reset by any number of ticks (whatever the quantum
  field holds at each tick), every finished process has a completion time \<open>ct\<close>, and its
  incrementally counted waiting time is exactly
  \<open>(ct - arrivalTime) - burstTime\<close>; its remaining time is 0.
\<close>

theorem waiting_identity:
  assumes "validDefs defs" and "i < length defs"
    and "finished (processes (ticks qi n (deepReset q0 defs s0)) ! i)"
  shows "\<exists>ct. completionTime (processes (ticks qi n (deepReset q0 defs s0)) ! i) = Some ct \<and>
           waitingTime (processes (ticks qi n (deepReset q0 defs s0)) ! i)
             = (ct - arrivalTime (defs ! i)) - burstTime (defs ! i) \<and>
           remainingTime (processes (ticks qi n (deepReset q0 defs s0)) ! i) = 0"
proof -
  let ?s = "ticks qi n (deepReset q0 defs s0)"
  have "procOK (currentTime ?s) (processes ?s ! i)"
    using timed_ticks [OF assms(1), of qi n q0 s0] assms(2)
    by (simp add: timed_def length_ticks)
  with assms(3) show ?thesis
    by (simp add: procOK_def static_ticks [OF assms(2)])
qed

theorem waiting_identity_witness:
  "validDefs scenarioB \<and> (0::nat) < length scenarioB \<and>
   finished (processes (ticks (\<lambda>_. Some 2) 5 (deepReset (Some 2) scenarioB pageLoad)) ! 0) \<and>
   (\<exists>ct. completionTime (processes (ticks (\<lambda>_. Some 2) 5 (deepReset (Some 2) scenarioB pageLoad)) ! 0)
           = Some ct \<and>
         waitingTime (processes (ticks (\<lambda>_. Some 2) 5 (deepReset (Some 2) scenarioB pageLoad)) ! 0)
           = (ct - arrivalTime (scenarioB ! 0)) - burstTime (scenarioB ! 0) \<and>
         remainingTime (processes (ticks (\<lambda>_. Some 2) 5 (deepReset (Some 2) scenarioB pageLoad)) ! 0) = 0)"
proof -
  have v: "validDefs scenarioB" by code_simp
  have l: "(0::nat) < length scenarioB" by code_simp
  have f: "finished (processes (ticks (\<lambda>_. Some 2) 5 (deepReset (Some 2) scenarioB pageLoad)) ! 0)"
    by code_simp
  show ?thesis
    using v l f waiting_identity [OF v l f] by blast
qed

section \<open>Mutual exclusion\<close>

text \<open>
  Claim C7. In every state reached from a reset by any number of ticks: no process is
  twice in the ready queue; the occupant of the CPU slot is not in the ready queue; and
  a finished process is neither in the ready queue nor in the CPU slot.
\<close>

theorem mutual_exclusion:
  "distinct (readyQueue (ticks qi n (deepReset q0 defs s0))) \<and>
   (\<forall>c. currentCPU (ticks qi n (deepReset q0 defs s0)) = Some c \<longrightarrow>
      proc c \<notin> set (readyQueue (ticks qi n (deepReset q0 defs s0)))) \<and>
   (\<forall>i < length (processes (ticks qi n (deepReset q0 defs s0))).
      finished (processes (ticks qi n (deepReset q0 defs s0)) ! i) \<longrightarrow>
      i \<notin> set (readyQueue (ticks qi n (deepReset q0 defs s0))) \<and>
      (\<forall>c. currentCPU (ticks qi n (deepReset q0 defs s0)) = Some c \<longrightarrow> proc c \<noteq> i))"
  using wellFormed_ticks [of qi n q0 defs s0]
  unfolding wellFormed_def by blast

theorem mutual_exclusion_witness:
  "currentCPU (ticks (\<lambda>_. Some 2) 3 (deepReset (Some 2) scenarioB pageLoad))
     = Some \<lparr>proc = 1, qLeft = 1\<rparr> \<and>
   1 \<notin> set (readyQueue (ticks (\<lambda>_. Some 2) 3 (deepReset (Some 2) scenarioB pageLoad))) \<and>
   (1::nat) < length (processes (ticks (\<lambda>_. Some 2) 4 (deepReset (Some 2) scenarioB pageLoad))) \<and>
   finished (processes (ticks (\<lambda>_. Some 2) 4 (deepReset (Some 2) scenarioB pageLoad)) ! 1) \<and>
   1 \<notin> set (readyQueue (ticks (\<lambda>_. Some 2) 4 (deepReset (Some 2) scenarioB pageLoad))) \<and>
   distinct (readyQueue (ticks (\<lambda>_. Some 2) 4 (deepReset (Some 2) scenarioB pageLoad)))"
proof -
  have a: "currentCPU (ticks (\<lambda>_. Some 2) 3 (deepReset (Some 2) scenarioB pageLoad))
     = Some \<lparr>proc = 1, qLeft = 1\<rparr>"
    by code_simp
  have c: "(1::nat) < length (processes (ticks (\<lambda>_. Some 2) 4 (deepReset (Some 2) scenarioB pageLoad)))"
    by code_simp
  have d: "finished (processes (ticks (\<lambda>_. Some 2) 4 (deepReset (Some 2) scenarioB pageLoad)) ! 1)"
    by code_simp
  show ?thesis
    using a c d
      mutual_exclusion [of "\<lambda>_. Some 2" 3 "Some 2" scenarioB pageLoad]
      mutual_exclusion [of "\<lambda>_. Some 2" 4 "Some 2" scenarioB pageLoad]
    by simp
qed

section \<open>Ticks after completion\<close>

text \<open>
  Claim C6, as the code has it. In every state reached from a reset by any number of
  ticks in which all processes are finished, a further call of \<^verbatim>\<open>tick\<close> leaves the ready
  queue, the CPU slot and every process record unchanged and advances the clock by
  exactly 1: it is an idle tick (lines 337-344), not a no-op.
\<close>

theorem tick_after_completion:
  assumes "allFinished (ticks qi n (deepReset q0 defs s0))"
  shows "tick q (ticks qi n (deepReset q0 defs s0))
       = (ticks qi n (deepReset q0 defs s0))
           \<lparr>currentTime := currentTime (ticks qi n (deepReset q0 defs s0)) + 1\<rparr>"
  using assms by (rule tick_allFinished [OF wellFormed_ticks])

theorem tick_after_completion_witness:
  "allFinished (ticks (\<lambda>_. Some 2) 5 (deepReset (Some 2) scenarioB pageLoad)) \<and>
   tick (Some 2) (ticks (\<lambda>_. Some 2) 5 (deepReset (Some 2) scenarioB pageLoad))
     = (ticks (\<lambda>_. Some 2) 5 (deepReset (Some 2) scenarioB pageLoad))
         \<lparr>currentTime := currentTime (ticks (\<lambda>_. Some 2) 5 (deepReset (Some 2) scenarioB pageLoad)) + 1\<rparr>"
proof -
  have a: "allFinished (ticks (\<lambda>_. Some 2) 5 (deepReset (Some 2) scenarioB pageLoad))"
    by code_simp
  show ?thesis
    using a tick_after_completion [OF a, of "Some 2"] by simp
qed

text \<open>
  The claim as stated fails: after the five ticks of scenario B all processes are
  finished and the clock is 5; one more tick gives a different state, with the clock
  at 6.
\<close>

theorem tick_noop_counterexample:
  "allFinished (scenarioBRun pageLoad 5) \<and>
   currentTime (scenarioBRun pageLoad 5) = 5 \<and>
   currentTime (tick (Some 2) (scenarioBRun pageLoad 5)) = 6 \<and>
   tick (Some 2) (scenarioBRun pageLoad 5) \<noteq> scenarioBRun pageLoad 5"
  by code_simp

section \<open>Preemption and completion\<close>

text \<open>
  Claim C3. In every call of \<^verbatim>\<open>tick\<close> in which the process in the CPU slot still has
  time left after its unit of execution and its quantum is used up, the ready queue at
  the end of the tick is the queue as the dispatch left it, followed by the processes
  that arrive at the clock value after the increment (all marked arrived), followed by
  the preempted process: it is last, behind every arrival of the same tick, and the CPU
  slot is empty. The arrivals are exactly the processes that the first scan of the tick
  left unarrived and that pass the test of line 279 at the new clock value.
\<close>

theorem preempted_behind_arrivals:
  assumes "currentCPU (dispatch q (arrivalsStep s)) = Some c"
    and "proc c < length (processes s)"
    and "max 0 (remainingTime (processes s ! proc c) - 1) \<noteq> 0"
    and "max 0 (qLeft c - 1) = 0"
  shows "readyQueue (tick q s)
           = readyQueue (dispatch q (arrivalsStep s)) @ lateArrivals s @ [proc c] \<and>
         currentCPU (tick q s) = None \<and>
         (\<forall>i \<in> set (lateArrivals s). arrived (processes (tick q s) ! i)) \<and>
         set (lateArrivals s)
           = {i. i < length (processes s) \<and>
                 due (currentTime s + 1) (processes (arrivalsStep s) ! i)}"
proof -
  let ?s3 = "arrivalsStep (runUnit c (dispatch q (arrivalsStep s)))"
  have t: "tick q s = ?s3\<lparr>readyQueue := readyQueue ?s3 @ [proc c], currentCPU := None\<rparr>"
    using assms(3,4) postscan_remaining [OF assms(2), of q]
    by (simp add: tick_busy [OF assms(1)] settle_def Let_def)
  have "arrived (processes ?s3 ! i)" if "i \<in> set (lateArrivals s)" for i
    using that
    by (auto simp: lateArrivals_def arrivalsStep_processes runUnit_fields runUnit_nth
        dispatch_processes dispatch_currentTime arrivalsStep_currentTime mark_fields Let_def)
  moreover have "set (lateArrivals s)
      = {i. i < length (processes s) \<and> due (currentTime s + 1) (processes (arrivalsStep s) ! i)}"
    by (auto simp: lateArrivals_def arrivalsStep_processes due_next_mark)
  ultimately show ?thesis
    by (simp add: t postscan_queue)
qed

theorem preempted_behind_arrivals_witness:
  "currentCPU (dispatch (Some 2) (arrivalsStep (demoRun 1))) = Some \<lparr>proc = 0, qLeft = 1\<rparr> \<and>
   proc \<lparr>proc = 0, qLeft = 1\<rparr> < length (processes (demoRun 1)) \<and>
   max 0 (remainingTime (processes (demoRun 1) ! proc \<lparr>proc = 0, qLeft = 1\<rparr>) - 1) \<noteq> 0 \<and>
   max 0 (qLeft \<lparr>proc = 0, qLeft = 1\<rparr> - 1) = 0 \<and>
   lateArrivals (demoRun 1) = [1] \<and>
   readyQueue (tick (Some 2) (demoRun 1)) = [1, 0] \<and>
   currentCPU (tick (Some 2) (demoRun 1)) = None \<and>
   arrived (processes (tick (Some 2) (demoRun 1)) ! 1)"
proof -
  have a: "currentCPU (dispatch (Some 2) (arrivalsStep (demoRun 1))) = Some \<lparr>proc = 0, qLeft = 1\<rparr>"
    by code_simp
  have b: "proc \<lparr>proc = 0, qLeft = 1\<rparr> < length (processes (demoRun 1))"
    by code_simp
  have c: "max 0 (remainingTime (processes (demoRun 1) ! proc \<lparr>proc = 0, qLeft = 1\<rparr>) - 1) \<noteq> 0"
    by code_simp
  have d: "max 0 (qLeft \<lparr>proc = 0, qLeft = 1\<rparr> - 1) = 0"
    by simp
  have e: "lateArrivals (demoRun 1) = [1]"
    by code_simp
  have f: "readyQueue (dispatch (Some 2) (arrivalsStep (demoRun 1))) = []"
    by code_simp
  show ?thesis
    using a b c e f preempted_behind_arrivals [OF a b c d] by simp
qed

text \<open>
  Claim C4. In every call of \<^verbatim>\<open>tick\<close> with an occupied CPU slot, with \<open>c\<close> the slot as
  the dispatch left it: if the remaining time of the running process reaches 0, the
  process is marked finished with the clock value after the increment as completion
  time, the CPU slot is cleared and nothing but the arrivals of the tick is appended to
  the queue (so the process, arrived and not queued, is not in the queue afterwards),
  whatever the quantum counter is; if time remains and the quantum counter reaches 0,
  the process is appended at the tail; if neither reaches 0, the process keeps the CPU
  slot with the quantum counter decreased.
\<close>

theorem completion_before_preemption:
  assumes "currentCPU (dispatch q (arrivalsStep s)) = Some c"
    and "proc c < length (processes s)"
  shows
    "(max 0 (remainingTime (processes s ! proc c) - 1) = 0 \<longrightarrow>
        finished (processes (tick q s) ! proc c) \<and>
        completionTime (processes (tick q s) ! proc c) = Some (currentTime s + 1) \<and>
        currentCPU (tick q s) = None \<and>
        readyQueue (tick q s) = readyQueue (dispatch q (arrivalsStep s)) @ lateArrivals s \<and>
        (arrived (processes (arrivalsStep s) ! proc c) \<and>
         proc c \<notin> set (readyQueue (dispatch q (arrivalsStep s))) \<longrightarrow>
           proc c \<notin> set (readyQueue (tick q s)))) \<and>
     (max 0 (remainingTime (processes s ! proc c) - 1) \<noteq> 0 \<and> max 0 (qLeft c - 1) = 0 \<longrightarrow>
        currentCPU (tick q s) = None \<and>
        readyQueue (tick q s)
          = readyQueue (dispatch q (arrivalsStep s)) @ lateArrivals s @ [proc c]) \<and>
     (max 0 (remainingTime (processes s ! proc c) - 1) \<noteq> 0 \<and> max 0 (qLeft c - 1) \<noteq> 0 \<longrightarrow>
        currentCPU (tick q s) = Some (c\<lparr>qLeft := qLeft c - 1\<rparr>) \<and>
        readyQueue (tick q s) = readyQueue (dispatch q (arrivalsStep s)) @ lateArrivals s)"
proof -
  let ?s3 = "arrivalsStep (runUnit c (dispatch q (arrivalsStep s)))"
  have t: "tick q s = settle c ?s3"
    by (rule tick_busy [OF assms(1)])
  have r: "remainingTime (processes ?s3 ! proc c) = max 0 (remainingTime (processes s ! proc c) - 1)"
    by (rule postscan_remaining [OF assms(2)])
  have l: "proc c < length (processes ?s3)"
    using assms(2) by (simp add: postscan_fields)
  have n: "proc c \<notin> set (lateArrivals s)" if "arrived (processes (arrivalsStep s) ! proc c)"
    using that assms(2)
    by (auto simp: lateArrivals_def arrivalsStep_processes mark_fields)
  show ?thesis
    unfolding t
    using r l n
    by (simp add: settle_def Let_def postscan_queue postscan_fields max_def)
qed

theorem completion_before_preemption_witness:
  "currentCPU (dispatch (Some 2) (arrivalsStep (scenarioBRun pageLoad 3)))
     = Some \<lparr>proc = 1, qLeft = 1\<rparr> \<and>
   max 0 (remainingTime (processes (scenarioBRun pageLoad 3) ! 1) - 1) = 0 \<and>
   max 0 (qLeft \<lparr>proc = 1, qLeft = 1\<rparr> - 1) = 0 \<and>
   arrived (processes (arrivalsStep (scenarioBRun pageLoad 3)) ! 1) \<and>
   1 \<notin> set (readyQueue (dispatch (Some 2) (arrivalsStep (scenarioBRun pageLoad 3)))) \<and>
   finished (processes (tick (Some 2) (scenarioBRun pageLoad 3)) ! 1) \<and>
   completionTime (processes (tick (Some 2) (scenarioBRun pageLoad 3)) ! 1) = Some 4 \<and>
   currentCPU (tick (Some 2) (scenarioBRun pageLoad 3)) = None \<and>
   1 \<notin> set (readyQueue (tick (Some 2) (scenarioBRun pageLoad 3))) \<and>
   currentCPU (dispatch (Some 2) (arrivalsStep (scenarioBRun pageLoad 1)))
     = Some \<lparr>proc = 0, qLeft = 1\<rparr> \<and>
   max 0 (remainingTime (processes (scenarioBRun pageLoad 1) ! 0) - 1) \<noteq> 0 \<and>
   readyQueue (tick (Some 2) (scenarioBRun pageLoad 1)) = [1, 0] \<and>
   currentCPU (dispatch (Some 2) (arrivalsStep (scenarioBRun pageLoad 0)))
     = Some \<lparr>proc = 0, qLeft = 2\<rparr> \<and>
   max 0 (remainingTime (processes (scenarioBRun pageLoad 0) ! 0) - 1) \<noteq> 0 \<and>
   max 0 (qLeft \<lparr>proc = 0, qLeft = 2\<rparr> - 1) \<noteq> 0 \<and>
   currentCPU (tick (Some 2) (scenarioBRun pageLoad 0)) = Some \<lparr>proc = 0, qLeft = 1\<rparr>"
proof -
  have a3: "currentCPU (dispatch (Some 2) (arrivalsStep (scenarioBRun pageLoad 3)))
      = Some \<lparr>proc = 1, qLeft = 1\<rparr>"
    by code_simp
  have b3: "proc \<lparr>proc = 1, qLeft = 1\<rparr> < length (processes (scenarioBRun pageLoad 3))"
    by code_simp
  have r3: "remainingTime (processes (scenarioBRun pageLoad 3) ! 1) = 1"
    by code_simp
  have v3: "arrived (processes (arrivalsStep (scenarioBRun pageLoad 3)) ! 1)"
    by code_simp
  have q3: "readyQueue (dispatch (Some 2) (arrivalsStep (scenarioBRun pageLoad 3))) = [0]"
    by code_simp
  have l3: "lateArrivals (scenarioBRun pageLoad 3) = []"
    by code_simp
  have t3: "currentTime (scenarioBRun pageLoad 3) = 3"
    by code_simp
  have a1: "currentCPU (dispatch (Some 2) (arrivalsStep (scenarioBRun pageLoad 1)))
      = Some \<lparr>proc = 0, qLeft = 1\<rparr>"
    by code_simp
  have b1: "proc \<lparr>proc = 0, qLeft = 1\<rparr> < length (processes (scenarioBRun pageLoad 1))"
    by code_simp
  have r1: "remainingTime (processes (scenarioBRun pageLoad 1) ! 0) = 2"
    by code_simp
  have q1: "readyQueue (dispatch (Some 2) (arrivalsStep (scenarioBRun pageLoad 1))) = [1]"
    by code_simp
  have l1: "lateArrivals (scenarioBRun pageLoad 1) = []"
    by code_simp
  have a0: "currentCPU (dispatch (Some 2) (arrivalsStep (scenarioBRun pageLoad 0)))
      = Some \<lparr>proc = 0, qLeft = 2\<rparr>"
    by code_simp
  have b0: "proc \<lparr>proc = 0, qLeft = 2\<rparr> < length (processes (scenarioBRun pageLoad 0))"
    by code_simp
  have r0: "remainingTime (processes (scenarioBRun pageLoad 0) ! 0) = 3"
    by code_simp
  show ?thesis
    using a3 r3 v3 q3 l3 t3 a1 r1 q1 l1 a0 r0
      completion_before_preemption [OF a3 b3]
      completion_before_preemption [OF a1 b1]
      completion_before_preemption [OF a0 b0]
    by simp
qed

section \<open>Arrivals of the same tick do not wait\<close>

text \<open>
  Claim C10. In every state reached from a reset by any number of ticks, a process that
  is still not arrived after the first arrival scan of a tick and is arrived at the end
  of that tick (so it was marked by the scan that follows the execution) has, at the end
  of the tick, the waiting time it had before the tick.
\<close>

theorem late_arrival_no_wait:
  assumes "i < length defs"
    and "\<not> arrived (processes (arrivalsStep (ticks qi n (deepReset q0 defs s0))) ! i)"
    and "arrived (processes (tick q (ticks qi n (deepReset q0 defs s0))) ! i)"
  shows "waitingTime (processes (tick q (ticks qi n (deepReset q0 defs s0))) ! i)
       = waitingTime (processes (ticks qi n (deepReset q0 defs s0)) ! i)"
proof -
  let ?s = "ticks qi n (deepReset q0 defs s0)"
  let ?s1 = "dispatch q (arrivalsStep ?s)"
  have i: "i < length (processes ?s)" using assms(1) by (simp add: length_ticks)
  have "wellFormed ?s1"
    by (simp add: wellFormed_dispatch wellFormed_arrivalsStep wellFormed_ticks)
  moreover have "\<not> arrived (processes ?s1 ! i)"
    using assms(2) by (simp add: dispatch_processes)
  ultimately have "i \<notin> set (readyQueue ?s1)"
    unfolding wellFormed_def by blast
  then show ?thesis
    by (simp add: waiting_tick [OF i])
qed

theorem late_arrival_no_wait_witness:
  "(1::nat) < length initialProcesses \<and>
   \<not> arrived (processes (arrivalsStep
      (ticks (\<lambda>_. Some 2) 1 (deepReset (Some 2) initialProcesses pageLoad))) ! 1) \<and>
   arrived (processes (tick (Some 2)
      (ticks (\<lambda>_. Some 2) 1 (deepReset (Some 2) initialProcesses pageLoad))) ! 1) \<and>
   waitingTime (processes (tick (Some 2)
      (ticks (\<lambda>_. Some 2) 1 (deepReset (Some 2) initialProcesses pageLoad))) ! 1)
     = waitingTime (processes
      (ticks (\<lambda>_. Some 2) 1 (deepReset (Some 2) initialProcesses pageLoad)) ! 1)"
proof -
  have a: "(1::nat) < length initialProcesses"
    by code_simp
  have b: "\<not> arrived (processes (arrivalsStep
      (ticks (\<lambda>_. Some 2) 1 (deepReset (Some 2) initialProcesses pageLoad))) ! 1)"
    by code_simp
  have c: "arrived (processes (tick (Some 2)
      (ticks (\<lambda>_. Some 2) 1 (deepReset (Some 2) initialProcesses pageLoad))) ! 1)"
    by code_simp
  show ?thesis
    using a b c late_arrival_no_wait [OF a b c] by blast
qed

section \<open>Termination\<close>

text \<open>
  Claim C9, as the code has it. For process definitions with positive burst times and
  non-negative arrival times, the ticks made from the reset state reach the all-finished
  state for the first time after a number of ticks equal to the sum of all burst times
  plus the number of idle ticks made so far (idle ticks before the first arrival and
  idle ticks in later gaps, when every arrived process is finished and another has yet
  to arrive); this number is at most the sum of all burst times plus the largest
  arrival time.
\<close>

theorem completion_tick_count:
  assumes "validDefs defs"
  shows "\<exists>n. allFinished (ticks qi n (deepReset q0 defs s0)) \<and>
             (\<forall>m < n. \<not> allFinished (ticks qi m (deepReset q0 defs s0))) \<and>
             int n = sumBurst defs + int (idleTicks qi n (deepReset q0 defs s0)) \<and>
             int n \<le> sumBurst defs + maxArrival defs"
proof -
  let ?P = "\<lambda>n. allFinished (ticks qi n (deepReset q0 defs s0))"
  let ?N = "nat (sumBurst defs + maxArrival defs)"
  have "?P ?N" by (rule finished_by_bound [OF assms])
  then obtain n where n: "?P n" "\<forall>m < n. \<not> ?P m"
    using exists_least_iff [of ?P] by blast
  have le: "n \<le> ?N"
  proof (rule ccontr)
    assume "\<not> n \<le> ?N"
    then have "?N < n" by simp
    with n(2) \<open>?P ?N\<close> show False by blast
  qed
  have "work (ticks qi n (deepReset q0 defs s0)) = 0"
    using work_allFinished [OF timed_ticks [OF assms] n(1)] .
  then have eq: "int n = sumBurst defs + int (idleTicks qi n (deepReset q0 defs s0))"
    using accounting [OF assms, of n qi q0 s0] by simp
  have nn: "0 \<le> sumBurst defs + maxArrival defs"
    using sumBurst_nonneg [OF assms] maxArrival_nonneg [of defs] by simp
  from le nn have "int n \<le> sumBurst defs + maxArrival defs" by simp
  with n eq show ?thesis by blast
qed

theorem completion_tick_count_witness:
  "validDefs gapDefs \<and>
   allFinished (ticks (\<lambda>_. Some 2) 4 (deepReset (Some 2) gapDefs pageLoad)) \<and>
   \<not> allFinished (ticks (\<lambda>_. Some 2) 3 (deepReset (Some 2) gapDefs pageLoad)) \<and>
   int 4 = sumBurst gapDefs + int (idleTicks (\<lambda>_. Some 2) 4 (deepReset (Some 2) gapDefs pageLoad)) \<and>
   int 4 \<le> sumBurst gapDefs + maxArrival gapDefs"
proof -
  let ?P = "\<lambda>n. allFinished (ticks (\<lambda>_. Some 2) n (deepReset (Some 2) gapDefs pageLoad))"
  have v: "validDefs gapDefs" by code_simp
  have p4: "?P 4" by code_simp
  have p3: "\<not> ?P 3" by code_simp
  have p2: "\<not> ?P 2" by code_simp
  have p1: "\<not> ?P 1" by code_simp
  have p0: "\<not> ?P 0" by code_simp
  from completion_tick_count [OF v, of "\<lambda>_. Some 2" "Some 2" pageLoad]
  obtain n where n: "?P n" "\<forall>m < n. \<not> ?P m"
    "int n = sumBurst gapDefs + int (idleTicks (\<lambda>_. Some 2) n (deepReset (Some 2) gapDefs pageLoad))"
    "int n \<le> sumBurst gapDefs + maxArrival gapDefs"
    by blast
  have "n = 4"
  proof (rule ccontr)
    assume ne: "n \<noteq> 4"
    show False
    proof (cases "n < 4")
      case True
      then have "n = 0 \<or> n = 1 \<or> n = 2 \<or> n = 3" by arith
      with n(1) p0 p1 p2 p3 show False by auto
    next
      case False
      with ne have "4 < n" by simp
      with n(2) p4 show False by blast
    qed
  qed
  with v p4 p3 n(3,4) show ?thesis by simp
qed

text \<open>
  The claim as stated fails, because idle ticks also occur after the first arrival:
  with P1 (burst 1, arrival 0) and P2 (burst 1, arrival 3) the sum of the burst times
  is 2 and the first tick already executes P1, so no idle tick precedes the first
  arrival; the processes are not all finished after 0, 1, 2 or 3 ticks, only after 4,
  two of which are idle.
\<close>

theorem completion_bound_counterexample:
  "validDefs gapDefs \<and> sumBurst gapDefs = 2 \<and>
   runningIn (Some 2) (gapRun 0) = Some 0 \<and>
   \<not> idleTick (Some 2) (gapRun 0) \<and>
   \<not> allFinished (gapRun 0) \<and> \<not> allFinished (gapRun 1) \<and>
   \<not> allFinished (gapRun 2) \<and> \<not> allFinished (gapRun 3) \<and>
   allFinished (gapRun 4) \<and>
   idleTick (Some 2) (gapRun 1) \<and> idleTick (Some 2) (gapRun 2)"
  by code_simp

section \<open>The quantum field\<close>

text \<open>
  Claim C5, as the code has it. A quantum field that holds no number or a number that
  is not positive is never rejected: \<^verbatim>\<open>getQuantum\<close> yields the quantum 1 in its place; a
  reset then initialises the engine whatever the prior state was (clock 0, empty queue,
  empty CPU slot, fresh process records) and displays the quantum 1; and every tick made
  while the field holds such a value is the tick made with the quantum 1.
\<close>

theorem invalid_quantum_defaults:
  assumes "case quantumInput of None \<Rightarrow> True | Some q \<Rightarrow> q \<le> 0"
  shows "getQuantum quantumInput = 1 \<and>
         deepReset quantumInput defs s =
           \<lparr>processes = map freshProcess defs, readyQueue = [], currentTime = 0,
            currentCPU = None, quantumDisplay = 1\<rparr> \<and>
         tick quantumInput s' = tick (Some 1) s'"
proof -
  have g: "getQuantum quantumInput = 1"
    using assms by (cases quantumInput) (simp_all add: getQuantum_def)
  have g1: "getQuantum (Some 1) = 1"
    by (simp add: getQuantum_def)
  have "deepReset quantumInput defs s =
      \<lparr>processes = map freshProcess defs, readyQueue = [], currentTime = 0,
       currentCPU = None, quantumDisplay = 1\<rparr>"
    by (cases s) (simp add: deepReset_def g)
  moreover have "dispatch quantumInput s1 = dispatch (Some 1) s1" for s1
    unfolding dispatch_def g g1 by simp
  ultimately show ?thesis
    by (simp add: g tick_def)
qed

theorem invalid_quantum_defaults_witness:
  "(case Some (0::int) of None \<Rightarrow> True | Some q \<Rightarrow> q \<le> 0) \<and>
   getQuantum (Some 0) = 1 \<and>
   deepReset (Some 0) scenarioB (scenarioBRun pageLoad 2) =
     \<lparr>processes = map freshProcess scenarioB, readyQueue = [], currentTime = 0,
      currentCPU = None, quantumDisplay = 1\<rparr> \<and>
   tick (Some 0) (scenarioBRun pageLoad 2) = tick (Some 1) (scenarioBRun pageLoad 2)"
proof -
  have a: "case Some (0::int) of None \<Rightarrow> True | Some q \<Rightarrow> q \<le> 0"
    by simp
  show ?thesis
    using a invalid_quantum_defaults [OF a, of scenarioB "scenarioBRun pageLoad 2" "scenarioBRun pageLoad 2"]
    by simp
qed

text \<open>
  The claim as stated fails: with the quantum field at 0, a reset made two ticks into
  scenario B is not refused. It replaces the prior state (clock 2) by the initial state
  (clock 0) and displays the quantum 1; the next tick dispatches P1 with quantum 1 and
  executes it.
\<close>

theorem quantum_rejection_counterexample:
  "getQuantum (Some 0) = 1 \<and>
   currentTime (scenarioBRun pageLoad 2) = 2 \<and>
   deepReset (Some 0) scenarioB (scenarioBRun pageLoad 2) \<noteq> scenarioBRun pageLoad 2 \<and>
   currentTime (deepReset (Some 0) scenarioB (scenarioBRun pageLoad 2)) = 0 \<and>
   quantumDisplay (deepReset (Some 0) scenarioB (scenarioBRun pageLoad 2)) = 1 \<and>
   currentCPU (dispatch (Some 0) (arrivalsStep (deepReset (Some 0) scenarioB (scenarioBRun pageLoad 2))))
     = Some \<lparr>proc = 0, qLeft = 1\<rparr> \<and>
   currentTime (tick (Some 0) (deepReset (Some 0) scenarioB (scenarioBRun pageLoad 2))) = 1 \<and>
   remainingTime (processes (tick (Some 0) (deepReset (Some 0) scenarioB (scenarioBRun pageLoad 2))) ! 0) = 2"
  by code_simp

end
